theory Spec2Isabelle
  imports Complex_Main
begin

section \<open>Router.ts: values, errors and promises\<close>

text \<open>
  A route is an opaque JavaScript value compared with \<open>===\<close>. The router also handles
  \<open>undefined\<close> as a route (\<open>Array.pop\<close> of an empty array, the initial value of the
  effect), so a route is \<open>'r option\<close> with \<open>None\<close> for \<open>undefined\<close>.
\<close>

type_synonym 'r route = "'r option"

text \<open>
  \<open>Error msg\<close> is \<open>new Error(msg)\<close>, also the error object a handler passes to
  \<open>cancel\<close>; \<open>TypeError\<close> is the exception the runtime raises for a property read on
  \<open>undefined\<close> and for a call of something that is not a function.
\<close>

datatype error = Error string | TypeError string

definition in_progress_error :: error where
  "in_progress_error = Error ''Another route transition is in progress''"

definition cancelled_error :: error where
  "cancelled_error = Error ''Route transition was cancelled''"

definition this_undefined_error :: error where
  "this_undefined_error = TypeError ''Cannot read property currentTransition of undefined''"

definition indexof_error :: error where
  "indexof_error = TypeError ''this.currentTransition.indexof is not a function''"

text \<open>The state of the promise an asynchronous operation hands to its caller.\<close>

datatype 'a outcome = Resolved 'a | Rejected error | Pending

text \<open>A call of the promise's \<open>resolve\<close> or \<open>reject\<close>; a promise keeps its first settlement.\<close>

datatype signal = Resolve | Reject error

fun settle :: "unit outcome \<Rightarrow> signal option \<Rightarrow> unit outcome" where
  "settle Pending (Some Resolve) = Resolved ()"
| "settle Pending (Some (Reject e)) = Rejected e"
| "settle p _ = p"

text \<open>What a call of \<open>complete\<close> does to its caller: it returns or it throws.\<close>

datatype completion = Returned "signal option" | Threw error

text \<open>
  A \<open>ConfirmTransition\<close> handler is caller code. The model gives it an identity and the
  calls it makes on the transition's capabilities while it runs, in order; it does not
  catch what they throw. Calls made after the handler has returned are the functions
  \<open>confirm\<close> and \<open>cancel\<close> below, applied to a later state.
\<close>

datatype vote = Confirm | Cancel "error option"

datatype handler = Handler (hid: nat) (votes: "vote list")

section \<open>Numbers\<close>

text \<open>
  \<open>stackSize\<close> is a JavaScript \<open>number\<close> that the constructor does not check: it can be
  negative, fractional, infinite or \<open>NaN\<close>. Every finite double is a rational, so a finite
  number is a \<open>rat\<close> here. The loop of \<open>push\<close> compares an array length with it
  (\<open>length >= stackSize\<close>); a comparison with \<open>NaN\<close> is false.
\<close>

datatype number = NaN | PosInfinity | NegInfinity | Finite rat

fun length_ge :: "nat \<Rightarrow> number \<Rightarrow> bool" where
  "length_ge n NaN = False"
| "length_ge n PosInfinity = False"
| "length_ge n NegInfinity = True"
| "length_ge n (Finite q) = (q \<le> of_nat n)"

text \<open>\<open>length <= stackSize\<close>, the bound a stack is said to keep.\<close>

fun length_le :: "nat \<Rightarrow> number \<Rightarrow> bool" where
  "length_le n NaN = False"
| "length_le n PosInfinity = True"
| "length_le n NegInfinity = False"
| "length_le n (Finite q) = (of_nat n \<le> q)"

section \<open>The router object\<close>

text \<open>
  Modelled from the spec: \<open>EffectHandler\<close> (imported from \<open>../EffectHandler\<close>) is the
  notification channel, with \<open>fire(route)\<close> notifying the subscribers and \<open>get()\<close>
  returning the last fired value or an initial default. \<open>effect_value\<close> is what \<open>get\<close>
  returns and \<open>effect_fired\<close> the notifications so far, oldest first.

  \<open>ConfirmTransitions\<close> and \<open>currentTransition\<close> hold references to arrays, and line 119
  makes them the same array. \<open>arrays\<close> is the store of handler arrays, a reference is an
  index into it. \<open>stackSize\<close> is the number the constructor was given, kept as it is.
\<close>

record 'r router =
  effect_value :: "'r route"
  effect_fired :: "'r route list"
  routeStack :: "'r route list"
  stackSize :: number
  arrays :: "handler list list"
  ConfirmTransitions :: nat
  currentTransition :: "nat option"

definition Router_new :: "'r route \<Rightarrow> number \<Rightarrow> 'r router" where
  "Router_new initial n =
     \<lparr>effect_value = initial, effect_fired = [], routeStack = [], stackSize = n,
      arrays = [Nil], ConfirmTransitions = 0, currentTransition = None\<rparr>"

definition get :: "'r router \<Rightarrow> 'r route" where
  "get st = effect_value st"

definition fire :: "'r router \<Rightarrow> 'r route \<Rightarrow> 'r router" where
  "fire st route = st\<lparr>effect_value := route, effect_fired := effect_fired st @ [route]\<rparr>"

text \<open>
  \<open>update\<close> (lines 43-49). The test \<open>!route === null\<close> compares a boolean with \<open>null\<close>
  and is false for every route, so the warning is never printed; the route is fired
  whatever it is.
\<close>

definition update :: "'r router \<Rightarrow> 'r route \<Rightarrow> 'r router" where
  "update st route = fire st route"

type_synonym 'r op = "'r router \<Rightarrow> 'r route \<Rightarrow> 'r router option"

definition update_op :: "'r op" where
  "update_op st route = Some (update st route)"

subsection \<open>Array operations\<close>

text \<open>\<open>Array.shift\<close> drops the first element and leaves an empty array empty.\<close>

definition shift :: "'a list \<Rightarrow> 'a list" where
  "shift xs = (case xs of [] \<Rightarrow> [] | _ # ys \<Rightarrow> ys)"

text \<open>\<open>Array.pop\<close>: the last element, \<open>undefined\<close> on an empty array, and the rest.\<close>

definition array_pop :: "'r route list \<Rightarrow> 'r route \<times> 'r route list" where
  "array_pop xs = (case rev xs of [] \<Rightarrow> (None, []) | x # ys \<Rightarrow> (x, rev ys))"

text \<open>\<open>Array.indexOf\<close>: the first index holding the element, \<open>None\<close> for \<open>-1\<close>.\<close>

fun indexOf :: "'a list \<Rightarrow> 'a \<Rightarrow> nat option" where
  "indexOf [] h = None"
| "indexOf (x # xs) h = (if x = h then Some 0 else map_option Suc (indexOf xs h))"

text \<open>\<open>splice(idx, 1)\<close> removes the element at \<open>idx\<close>.\<close>

definition splice1 :: "nat \<Rightarrow> 'a list \<Rightarrow> 'a list" where
  "splice1 idx xs = take idx xs @ drop (Suc idx) xs"

text \<open>
  The methods of \<open>Array.prototype\<close> that Router.ts names. Property names are case
  sensitive: reading a name that is not there gives \<open>undefined\<close>, and calling that throws.
\<close>

definition Array_prototype :: "string list" where
  "Array_prototype =
     [''concat'', ''filter'', ''forEach'', ''indexOf'', ''pop'', ''push'', ''shift'', ''splice'']"

subsection \<open>push's eviction loop (lines 96-98)\<close>

text \<open>
  \<open>while (this.routeStack.length >= this.stackSize) this.routeStack.shift()\<close>.
  The loop need not end, so the result is \<open>None\<close> when it does not.
\<close>

partial_function (option) evict :: "number \<Rightarrow> 'a list \<Rightarrow> 'a list option" where
  "evict n xs = (if length_ge (length xs) n then evict n (shift xs) else Some xs)"

declare evict.simps [code]

definition push_op :: "'r op" where
  "push_op st route =
     (case evict (stackSize st) (routeStack st) of
        None \<Rightarrow> None
      | Some xs \<Rightarrow> Some (update (st\<lparr>routeStack := xs @ [get st]\<rparr>) route))"

section \<open>updateRoute (lines 108-156)\<close>

text \<open>
  \<open>complete\<close> is declared with \<open>function\<close> inside the promise's executor and called as
  \<open>complete(null, err)\<close> and \<open>complete(handler)\<close>. A class body is strict code, so in
  such a call \<open>this\<close> is \<open>undefined\<close>. \<open>this_binding\<close> says what \<open>this\<close> is in a call of
  \<open>complete\<close>; the two call sites pass \<open>This_undefined\<close>.
\<close>

datatype this_binding = This_undefined | This_router

definition complete ::
  "this_binding \<Rightarrow> 'r op \<Rightarrow> 'r route \<Rightarrow> handler option \<Rightarrow> error option \<Rightarrow> 'r router
     \<Rightarrow> ('r router \<times> completion) option" where
  "complete this op route handler err st =
     (case this of
        This_undefined \<Rightarrow> Some (st, Threw this_undefined_error)
      | This_router \<Rightarrow>
         (case currentTransition st of
            None \<Rightarrow> Some (st, Returned None)
          | Some a \<Rightarrow>
             (case handler of
                None \<Rightarrow>
                  Some (st\<lparr>currentTransition := None\<rparr>,
                        Returned (Some (Reject (case err of None \<Rightarrow> cancelled_error
                                                          | Some e \<Rightarrow> e))))
              | Some h \<Rightarrow>
                  if ''indexof'' \<notin> set Array_prototype then Some (st, Threw indexof_error)
                  else
                    (case indexOf (arrays st ! a) h of
                       None \<Rightarrow> Some (st, Returned None)
                     | Some idx \<Rightarrow>
                         (let st1 = st\<lparr>arrays := (arrays st)[a := splice1 idx (arrays st ! a)]\<rparr>
                          in if length (arrays st1 ! a) = 0
                             then (case op (st1\<lparr>currentTransition := None\<rparr>) route of
                                     None \<Rightarrow> None
                                   | Some st2 \<Rightarrow> Some (st2, Returned (Some Resolve)))
                             else Some (st1, Returned None))))))"

text \<open>The capabilities handed to a handler (lines 152-153).\<close>

definition cancel ::
  "'r op \<Rightarrow> 'r route \<Rightarrow> error option \<Rightarrow> 'r router \<Rightarrow> ('r router \<times> completion) option" where
  "cancel op route err st = complete This_undefined op route None err st"

definition confirm ::
  "'r op \<Rightarrow> 'r route \<Rightarrow> handler \<Rightarrow> 'r router \<Rightarrow> ('r router \<times> completion) option" where
  "confirm op route handler st = complete This_undefined op route (Some handler) None st"

text \<open>
  One handler running: its calls in order, until one throws. The result is the state, the
  promise, and the exception that left the handler, if any.
\<close>

fun run_handler ::
  "'r op \<Rightarrow> 'r route \<Rightarrow> handler \<Rightarrow> vote list \<Rightarrow> 'r router \<Rightarrow> unit outcome
     \<Rightarrow> ('r router \<times> unit outcome \<times> error option) option" where
  "run_handler op route h [] st p = Some (st, p, None)"
| "run_handler op route h (v # vs) st p =
     (case (case v of Confirm \<Rightarrow> confirm op route h st
                    | Cancel err \<Rightarrow> cancel op route err st) of
        None \<Rightarrow> None
      | Some (st', Threw e) \<Rightarrow> Some (st', p, Some e)
      | Some (st', Returned s) \<Rightarrow> run_handler op route h vs st' (settle p s))"

text \<open>
  \<open>this.ConfirmTransitions.forEach\<close> (line 150) over the array at reference \<open>a\<close>: the
  indices below the length at the start, each read from the array as it is then. An
  exception from a handler ends the iteration.
\<close>

fun forEach ::
  "'r op \<Rightarrow> 'r route \<Rightarrow> nat \<Rightarrow> nat list \<Rightarrow> 'r router \<Rightarrow> unit outcome
     \<Rightarrow> ('r router \<times> unit outcome \<times> error option) option" where
  "forEach op route a [] st p = Some (st, p, None)"
| "forEach op route a (k # ks) st p =
     (if k < length (arrays st ! a)
      then (case run_handler op route (arrays st ! a ! k) (votes (arrays st ! a ! k)) st p of
              None \<Rightarrow> None
            | Some (st', p', Some e) \<Rightarrow> Some (st', p', Some e)
            | Some (st', p', None) \<Rightarrow> forEach op route a ks st' p')
      else forEach op route a ks st p)"

text \<open>
  The result is the router and the promise as they are when the synchronous part of the
  call is over. An exception out of the executor rejects the promise unless it is settled.
\<close>

definition updateRoute :: "'r router \<Rightarrow> 'r route \<Rightarrow> 'r op \<Rightarrow> ('r router \<times> unit outcome) option" where
  "updateRoute st route op =
     (if currentTransition st \<noteq> None then Some (st, Rejected in_progress_error)
      else if length (arrays st ! ConfirmTransitions st) = 0
      then (case op st route of None \<Rightarrow> None | Some st' \<Rightarrow> Some (st', Resolved ()))
      else
        (let a = ConfirmTransitions st; st1 = st\<lparr>currentTransition := Some a\<rparr>
         in case forEach op route a [0..<length (arrays st1 ! a)] st1 Pending of
              None \<Rightarrow> None
            | Some (st2, p, None) \<Rightarrow> Some (st2, p)
            | Some (st2, p, Some e) \<Rightarrow> Some (st2, settle p (Some (Reject e)))))"

section \<open>pop, set, push and registerConfirm\<close>

definition pop :: "'r router \<Rightarrow> ('r router \<times> 'r route outcome) option" where
  "pop st =
     (let (previousRoute, rest) = array_pop (routeStack st)
      in case updateRoute (st\<lparr>routeStack := rest\<rparr>) previousRoute update_op of
           None \<Rightarrow> None
         | Some (st', Resolved _) \<Rightarrow> Some (st', Resolved previousRoute)
         | Some (st', Rejected e) \<Rightarrow> Some (st', Rejected e)
         | Some (st', Pending) \<Rightarrow> Some (st', Pending))"

definition set_route :: "'r router \<Rightarrow> 'r route \<Rightarrow> ('r router \<times> unit outcome) option" where
  "set_route st route =
     (let st1 = st\<lparr>routeStack := []\<rparr>
      in if get st1 = route then Some (st1\<lparr>routeStack := []\<rparr>, Resolved ())
         else updateRoute st1 route update_op)"

definition push :: "'r router \<Rightarrow> 'r route \<Rightarrow> ('r router \<times> unit outcome) option" where
  "push st route =
     (if get st = route then Some (st, Resolved ()) else updateRoute st route push_op)"

text \<open>
  \<open>registerConfirm\<close> (lines 190-198): \<open>concat\<close> and \<open>filter\<close> build a new array, which
  \<open>ConfirmTransitions\<close> then refers to; the array it referred to before is left as it is.
\<close>

definition registerConfirm :: "'r router \<Rightarrow> handler \<Rightarrow> 'r router" where
  "registerConfirm st effect =
     st\<lparr>arrays := arrays st @ [arrays st ! ConfirmTransitions st @ [effect]],
        ConfirmTransitions := length (arrays st)\<rparr>"

definition unregisterConfirm :: "'r router \<Rightarrow> handler \<Rightarrow> 'r router" where
  "unregisterConfirm st effect =
     st\<lparr>arrays := arrays st @ [filter (\<lambda>k. k \<noteq> effect) (arrays st ! ConfirmTransitions st)],
        ConfirmTransitions := length (arrays st)\<rparr>"

section \<open>Call sequences and a router in the middle of a vote\<close>

text \<open>
  A caller making one \<open>push\<close> after the other, whatever each promise does. The result is
  \<open>None\<close> when a call does not return.
\<close>

fun push_sequence :: "'r router \<Rightarrow> 'r route list \<Rightarrow> 'r router option" where
  "push_sequence st [] = Some st"
| "push_sequence st (r # rs) =
     (case push st r of None \<Rightarrow> None | Some (st', _) \<Rightarrow> push_sequence st' rs)"

text \<open>
  The router after \<open>new Router(undefined, 32)\<close> with initial route 0, \<open>push(1)\<close>,
  \<open>registerConfirm(h)\<close> for a handler \<open>h\<close> that keeps its capabilities for later, and
  \<open>push(2)\<close>: the transition to 2 waits for \<open>h\<close>.
\<close>

definition waiting_handler :: handler where
  "waiting_handler = Handler 7 []"

definition voting_router :: "nat router" where
  "voting_router =
     \<lparr>effect_value = Some 1, effect_fired = [Some 1], routeStack = [Some 0], stackSize = Finite 32,
      arrays = [Nil, [waiting_handler]], ConfirmTransitions = 1, currentTransition = Some 1\<rparr>"

section \<open>Arrays and the eviction loop\<close>

lemma array_pop_eq:
  "array_pop xs = (if xs = [] then None else last xs, butlast xs)"
proof (cases xs rule: rev_cases)
  case Nil
  then show ?thesis by (simp add: array_pop_def)
next
  case (snoc ys y)
  then show ?thesis by (simp add: array_pop_def)
qed

text \<open>
  When the loop ends, its test is false of what is left. A bound that an empty array
  reaches (zero, a negative number, \<open>-Infinity\<close>) therefore never lets it end; \<open>NaN\<close> and
  \<open>Infinity\<close> never let it start.
\<close>

lemma evict_Some_stops:
  assumes "evict n xs = Some ys"
  shows "\<not> length_ge (length ys) n"
proof (rule evict.raw_induct [where P = "\<lambda>n xs ys. \<not> length_ge (length ys) n", OF _ assms])
  fix f :: "number \<Rightarrow> 'a list \<Rightarrow> 'a list option" and m :: number and as bs :: "'a list"
  assume ih: "\<And>k cs ds. f k cs = Some ds \<Longrightarrow> \<not> length_ge (length ds) k"
    and body: "(if length_ge (length as) m then f m (shift as) else Some as) = Some bs"
  show "\<not> length_ge (length bs) m"
  proof (cases "length_ge (length as) m")
    case True
    with body have "f m (shift as) = Some bs" by simp
    then show ?thesis by (rule ih)
  next
    case False
    with body show ?thesis by simp
  qed
qed

lemma length_ge_mono: "length_ge 0 n \<Longrightarrow> length_ge k n"
proof (cases n)
  case (Finite q)
  assume "length_ge 0 n"
  with Finite have "q \<le> 0" by simp
  also have "(0::rat) \<le> of_nat k" by simp
  finally show ?thesis using Finite by simp
qed simp_all

lemma evict_never_ends: "length_ge 0 n \<Longrightarrow> evict n xs = None"
proof (cases "evict n xs")
  case None
  then show ?thesis .
next
  case (Some ys)
  assume "length_ge 0 n"
  then have "length_ge (length ys) n" by (rule length_ge_mono)
  with evict_Some_stops [OF Some] show ?thesis by simp
qed

lemma evict_unbounded: "n = NaN \<or> n = PosInfinity \<Longrightarrow> evict n xs = Some xs"
  by (subst evict.simps) auto

lemma evict_pos:
  "0 < n \<Longrightarrow> evict (Finite (of_nat n)) xs = Some (drop (Suc (length xs) - n) xs)"
proof (induction xs)
  case Nil
  then show ?case by (subst evict.simps) simp
next
  case (Cons x xs)
  show ?case
  proof (cases "n \<le> Suc (length xs)")
    case True
    have "(of_nat n \<le> (of_nat (length (x # xs)) :: rat)) = (n \<le> length (x # xs))"
      by (rule of_nat_le_iff)
    with True have "of_nat n \<le> (of_nat (length (x # xs)) :: rat)" by simp
    then have "evict (Finite (of_nat n)) (x # xs) = evict (Finite (of_nat n)) xs"
      by (subst evict.simps) (simp add: shift_def)
    also have "\<dots> = Some (drop (Suc (length xs) - n) xs)" using Cons by simp
    also have "drop (Suc (length xs) - n) xs = drop (Suc (length (x # xs)) - n) (x # xs)"
      using True by (simp add: Suc_diff_le)
    finally show ?thesis .
  next
    case False
    have "(of_nat n \<le> (of_nat (length (x # xs)) :: rat)) = (n \<le> length (x # xs))"
      by (rule of_nat_le_iff)
    with False have "\<not> of_nat n \<le> (of_nat (length (x # xs)) :: rat)" by simp
    then show ?thesis using False by (subst evict.simps) simp
  qed
qed

lemma push_op_pos:
  assumes "stackSize st = Finite (of_nat n)" and "0 < n"
  shows "push_op st route =
    Some (fire (st\<lparr>routeStack :=
      drop (length (routeStack st @ [get st]) - n) (routeStack st @ [get st])\<rparr>) route)"
  using assms by (simp add: push_op_def evict_pos update_def Suc_diff_le)

lemma push_op_never_returns: "length_ge 0 (stackSize st) \<Longrightarrow> push_op st route = None"
  by (simp add: push_op_def evict_never_ends)

section \<open>Votes and the three branches of updateRoute\<close>

text \<open>
  Both capabilities call \<open>complete\<close> with \<open>this\<close> undefined, so each call throws at the
  first line of \<open>complete\<close> (line 130) and the router is as it was.
\<close>

lemma confirm_throws: "confirm op route h st = Some (st, Threw this_undefined_error)"
  by (simp add: confirm_def complete_def)

lemma cancel_throws: "cancel op route err st = Some (st, Threw this_undefined_error)"
  by (simp add: cancel_def complete_def)

text \<open>
  With \<open>this\<close> bound to the router, a confirmation would still throw at line 138:
  \<open>indexof\<close> is not a method of an array.
\<close>

lemma complete_bound_confirm_throws:
  "currentTransition st = Some a \<Longrightarrow>
   complete This_router op route (Some h) err st = Some (st, Threw indexof_error)"
  by (simp add: complete_def Array_prototype_def)

lemma run_handler_eq:
  "run_handler op route h vs st p =
     Some (st, p, if vs = [] then None else Some this_undefined_error)"
  by (cases vs) (simp_all add: confirm_throws cancel_throws split: vote.splits)

lemma forEach_keeps:
  "\<exists>e. forEach op route a ks st p = Some (st, p, e) \<and> (e = None \<or> e = Some this_undefined_error)"
  by (induction ks) (auto simp: run_handler_eq)

lemma updateRoute_in_progress:
  "currentTransition st \<noteq> None \<Longrightarrow> updateRoute st route op = Some (st, Rejected in_progress_error)"
  by (simp add: updateRoute_def)

lemma updateRoute_no_handlers:
  "currentTransition st = None \<Longrightarrow> arrays st ! ConfirmTransitions st = [] \<Longrightarrow>
   updateRoute st route op = (case op st route of None \<Rightarrow> None | Some st' \<Rightarrow> Some (st', Resolved ()))"
  by (simp add: updateRoute_def)

text \<open>
  A voting round sets \<open>currentTransition\<close> and nothing else; its promise is pending, or
  rejected with the exception a handler's vote threw. The operation is not run.
\<close>

lemma updateRoute_voting:
  assumes "currentTransition st = None" and "arrays st ! ConfirmTransitions st \<noteq> []"
  shows "\<exists>out. updateRoute st route op =
           Some (st\<lparr>currentTransition := Some (ConfirmTransitions st)\<rparr>, out)
         \<and> (out = Pending \<or> out = Rejected this_undefined_error)"
proof -
  let ?a = "ConfirmTransitions st"
  let ?st1 = "st\<lparr>currentTransition := Some ?a\<rparr>"
  obtain e where e: "forEach op route ?a [0..<length (arrays ?st1 ! ?a)] ?st1 Pending
        = Some (?st1, Pending, e)" "e = None \<or> e = Some this_undefined_error"
    using forEach_keeps by blast
  show ?thesis using assms e by (auto simp: updateRoute_def Let_def)
qed

lemma updateRoute_stack:
  assumes "updateRoute st route op = Some (st', out)"
  shows "st' = st \<or> st' = st\<lparr>currentTransition := Some (ConfirmTransitions st)\<rparr>
         \<or> op st route = Some st'"
proof (cases "currentTransition st")
  case (Some a)
  with assms show ?thesis by (simp add: updateRoute_in_progress)
next
  case None
  show ?thesis
  proof (cases "arrays st ! ConfirmTransitions st = []")
    case True
    with None assms show ?thesis
      by (auto simp: updateRoute_no_handlers split: option.splits)
  next
    case False
    from updateRoute_voting [OF None False, of route op] assms show ?thesis by auto
  qed
qed

lemma voting_router_reached:
  "(case push (Router_new (Some 0) (Finite 32)) (Some 1) of
      None \<Rightarrow> None
    | Some (st, _) \<Rightarrow> push (registerConfirm st waiting_handler) (Some 2))
   = Some (voting_router, Pending)"
  by code_simp

section \<open>The stack bound\<close>

lemma push_op_bound:
  assumes "push_op st route = Some st'" and "stackSize st = Finite (of_nat n)"
  shows "length (routeStack st') \<le> n \<and> stackSize st' = stackSize st"
proof -
  from assms(1) obtain xs where xs: "evict (stackSize st) (routeStack st) = Some xs"
    and st': "st' = update (st\<lparr>routeStack := xs @ [get st]\<rparr>) route"
    by (auto simp: push_op_def split: option.splits)
  from evict_Some_stops [OF xs] assms(2) have "\<not> of_nat n \<le> (of_nat (length xs) :: rat)"
    by simp
  moreover have "(of_nat n \<le> (of_nat (length xs) :: rat)) = (n \<le> length xs)"
    by (rule of_nat_le_iff)
  ultimately have "length xs < n" by simp
  then show ?thesis by (simp add: st' update_def fire_def)
qed

lemma push_bound:
  assumes "push st route = Some (st', out)" and "stackSize st = Finite (of_nat n)"
    and "length (routeStack st) \<le> n"
  shows "length (routeStack st') \<le> n \<and> stackSize st' = stackSize st"
proof (cases "get st = route")
  case True
  with assms show ?thesis by (simp add: push_def)
next
  case False
  with assms(1) have "updateRoute st route push_op = Some (st', out)" by (simp add: push_def)
  from updateRoute_stack [OF this] show ?thesis
    using assms(3) push_op_bound [OF _ assms(2), of route st'] by auto
qed

lemma push_idle:
  assumes "stackSize st = Finite (of_nat n)" and "0 < n" and "currentTransition st = None"
    and "arrays st ! ConfirmTransitions st = []" and "route \<noteq> get st"
  shows "push st route =
    Some (fire (st\<lparr>routeStack :=
      drop (length (routeStack st @ [get st]) - n) (routeStack st @ [get st])\<rparr>) route,
      Resolved ())"
  using assms by (auto simp: push_def updateRoute_no_handlers push_op_pos)

lemma push_returns:
  assumes size: "stackSize st = Finite (of_nat n)" and pos: "0 < n"
  shows "\<exists>st' out. push st route = Some (st', out)"
proof (cases "get st = route")
  case True
  then show ?thesis by (simp add: push_def)
next
  case differs: False
  show ?thesis
  proof (cases "currentTransition st")
    case (Some a)
    then show ?thesis using differs by (simp add: push_def updateRoute_in_progress)
  next
    case None
    show ?thesis
    proof (cases "arrays st ! ConfirmTransitions st = []")
      case True
      with None differs show ?thesis by (simp add: push_idle [OF size pos])
    next
      case False
      from updateRoute_voting [OF None False, of route push_op] show ?thesis
        using differs by (auto simp: push_def)
    qed
  qed
qed

lemma push_sequence_bound:
  "stackSize st = Finite (of_nat n) \<Longrightarrow> 0 < n \<Longrightarrow> length (routeStack st) \<le> n \<Longrightarrow>
   \<exists>st'. push_sequence st rs = Some st' \<and> length (routeStack st') \<le> n
         \<and> stackSize st' = stackSize st"
proof (induction rs arbitrary: st)
  case Nil
  then show ?case by simp
next
  case (Cons r rs)
  from push_returns [OF Cons.prems(1,2), of r] obtain st1 out
    where p: "push st r = Some (st1, out)"
    by blast
  from push_bound [OF p Cons.prems(1,3)]
  have b: "length (routeStack st1) \<le> n" and s: "stackSize st1 = stackSize st"
    by simp_all
  from s Cons.prems(1) have "stackSize st1 = Finite (of_nat n)" by simp
  from Cons.IH [OF this Cons.prems(2) b] p s show ?case by auto
qed

text \<open>With a bound of zero the first \<open>push\<close> of a new route does not return.\<close>

lemma push_zero_bound_hangs:
  "route \<noteq> initial \<Longrightarrow> push (Router_new initial (Finite 0)) route = None"
  by (simp add: push_def get_def updateRoute_def Router_new_def push_op_never_returns)

section \<open>Claims about the voting round\<close>

text \<open>
  Claim C1: when every registered handler calls \<open>confirm\<close>, the transition commits once,
  the operation runs once and no transition is pending afterwards.

  The code does not do this. Two handlers are registered and each calls \<open>confirm\<close> as soon
  as it is invoked; \<open>push(1)\<close> is requested on a router showing route 0. The first
  \<open>confirm\<close> throws the TypeError of reading \<open>currentTransition\<close> of \<open>undefined\<close>, the
  promise is rejected with it, nothing is pushed or fired, and \<open>currentTransition\<close> stays
  set. A handler that confirms later, here the one of \<open>voting_router\<close>, gets the same
  exception and the router stays as it was.
\<close>

theorem unanimous_confirm_never_commits:
  "push (registerConfirm (registerConfirm (Router_new (Some 0) (Finite 32)) (Handler 1 [Confirm]))
           (Handler 2 [Confirm])) (Some (1::nat))
   = Some (\<lparr>effect_value = Some 0, effect_fired = [], routeStack = [], stackSize = Finite 32,
             arrays = [Nil, [Handler 1 [Confirm]], [Handler 1 [Confirm], Handler 2 [Confirm]]],
             ConfirmTransitions = 2, currentTransition = Some 2\<rparr>,
           Rejected this_undefined_error)
   \<and> confirm push_op (Some 2) waiting_handler voting_router
       = Some (voting_router, Threw this_undefined_error)"
  by code_simp

text \<open>
  Claim C2: when one handler calls \<open>cancel\<close>, the transition aborts: the operation does not
  run, no transition is pending afterwards, and the request fails with the handler's reason
  or the default one.

  The code does not do this. One handler is registered and calls
  \<open>cancel(new Error('blocked'))\<close> as soon as it is invoked; \<open>push(1)\<close> is requested. The
  operation does not run, but \<open>cancel\<close> throws the TypeError, the promise is rejected with
  that and not with the handler's reason, and \<open>currentTransition\<close> stays set. A later
  \<open>cancel\<close> on \<open>voting_router\<close> throws and leaves the vote pending.
\<close>

theorem cancel_does_not_abort:
  "push (registerConfirm (Router_new (Some 0) (Finite 32)) (Handler 1 [Cancel (Some (Error ''blocked''))]))
        (Some (1::nat))
   = Some (\<lparr>effect_value = Some 0, effect_fired = [], routeStack = [], stackSize = Finite 32,
             arrays = [Nil, [Handler 1 [Cancel (Some (Error ''blocked''))]]],
             ConfirmTransitions = 1, currentTransition = Some 1\<rparr>,
           Rejected this_undefined_error)
   \<and> cancel push_op (Some 2) (Some (Error ''blocked'')) voting_router
       = Some (voting_router, Threw this_undefined_error)"
  by code_simp

text \<open>
  Claim C3, as stated: while a transition is pending, every call of \<open>push\<close>, \<open>pop\<close> or
  \<open>set\<close> fails with the transition-in-progress error. It fails for \<open>push\<close> of the route
  that is current: line 92 returns before \<open>updateRoute\<close> is reached, and the call succeeds.
\<close>

theorem push_current_route_while_voting:
  "currentTransition voting_router \<noteq> None
   \<and> push voting_router (Some 1) = Some (voting_router, Resolved ())"
  by code_simp

text \<open>
  Claim C3, amended: while a transition is pending, \<open>pop()\<close> always, and \<open>push(route)\<close>
  and \<open>set(route)\<close> for a route other than the current one, fail with the
  transition-in-progress error; \<open>push\<close> and \<open>set\<close> of the current route succeed. No
  voting round is started: the router after the call differs from the one before at most in
  \<open>routeStack\<close>, so the pending handler list, the registered handlers, the current route and
  the notifications are the same.
\<close>

theorem request_while_voting:
  assumes "currentTransition st \<noteq> None"
  shows "pop st = Some (st\<lparr>routeStack := butlast (routeStack st)\<rparr>, Rejected in_progress_error)
    \<and> (route \<noteq> get st \<longrightarrow>
          push st route = Some (st, Rejected in_progress_error)
        \<and> set_route st route = Some (st\<lparr>routeStack := []\<rparr>, Rejected in_progress_error))
    \<and> push st (get st) = Some (st, Resolved ())
    \<and> set_route st (get st) = Some (st\<lparr>routeStack := []\<rparr>, Resolved ())"
  using assms
  by (simp add: pop_def push_def set_route_def array_pop_eq updateRoute_in_progress get_def)

theorem request_while_voting_witness:
  "currentTransition voting_router \<noteq> None
   \<and> Some (2::nat) \<noteq> get voting_router
   \<and> pop voting_router = Some (voting_router\<lparr>routeStack := []\<rparr>, Rejected in_progress_error)
   \<and> push voting_router (Some 2) = Some (voting_router, Rejected in_progress_error)
   \<and> currentTransition (voting_router\<lparr>routeStack := []\<rparr>) = Some 1"
proof -
  have h: "currentTransition voting_router \<noteq> None" by (simp add: voting_router_def)
  have g: "Some (2::nat) \<noteq> get voting_router" by (simp add: voting_router_def get_def)
  have b: "butlast (routeStack voting_router) = []" by (simp add: voting_router_def)
  show ?thesis
    using h g b request_while_voting [OF h, of "Some 2"] by (simp add: voting_router_def)
qed

section \<open>Claims about pop and the stack bound\<close>

text \<open>
  Claim C4: with an empty stack, \<open>pop()\<close> returns the empty result, performs no
  transition and fires no notification.

  The code does not do this. \<open>pop\<close> has no test for an empty stack: it passes the
  \<open>undefined\<close> it got from \<open>Array.pop\<close> to \<open>updateRoute\<close>, and \<open>update\<close>, whose warning
  calls such a route invalid and the change without effect, fires it all the same (its test
  at line 44 is never true). On a new router showing route 0, with no handler, the call
  fires one notification carrying \<open>undefined\<close>, and \<open>undefined\<close> is the current route
  afterwards.
\<close>

theorem pop_empty_fires_undefined:
  "routeStack (Router_new (Some (0::nat)) (Finite 32)) = []
   \<and> pop (Router_new (Some (0::nat)) (Finite 32))
       = Some (\<lparr>effect_value = None, effect_fired = [None], routeStack = [],
                 stackSize = Finite 32, arrays = [Nil], ConfirmTransitions = 0,
                 currentTransition = None\<rparr>,
               Resolved None)"
  by code_simp

text \<open>
  Claim C5, as stated: on a router constructed with any \<open>stackSize\<close>, the stack is never
  longer than \<open>stackSize\<close> after a \<open>push\<close>. The constructor takes any number. With
  \<open>stackSize = 1.5\<close> the loop of \<open>push\<close> stops at length 1 and the push makes it 2, so
  after \<open>push(1)\<close>, \<open>push(2)\<close> the stack holds two entries. With \<open>stackSize = 0\<close> the
  loop never ends, and the first \<open>push\<close> of a new route does not return.
\<close>

theorem stack_exceeds_fractional_bound:
  "map_option routeStack (push_sequence (Router_new None (Finite (3 / 2))) [Some (1::nat), Some 2])
     = Some [None, Some 1]
   \<and> \<not> length_le (length [None, Some (1::nat)]) (Finite (3 / 2))
   \<and> push (Router_new None (Finite 0)) (Some (1::nat)) = None"
proof -
  have "map_option routeStack
          (push_sequence (Router_new None (Finite (3 / 2))) [Some (1::nat), Some 2])
        = Some [None, Some 1]"
    by code_simp
  moreover have "\<not> length_le (length [None, Some (1::nat)]) (Finite (3 / 2))"
    by simp
  moreover have "push (Router_new None (Finite 0)) (Some (1::nat)) = None"
    by (rule push_zero_bound_hangs) simp
  ultimately show ?thesis by blast
qed

text \<open>
  Claim C5, amended: on a router whose \<open>stackSize\<close> is a positive integer \<open>n\<close>, every
  sequence of \<open>push\<close> calls returns and the stack is never longer than \<open>n\<close> after a call;
  a push at capacity drops the oldest entry first.

  From any router with such a bound whose stack is within it (a new router's is empty):
  every sequence of \<open>push\<close> calls returns, with the stack within the bound and the bound
  unchanged; and a \<open>push\<close> that commits (no vote pending, no handler, a route other than
  the current one) leaves the last \<open>n\<close> entries of the old stack followed by the old
  current route, so what is dropped is dropped from the old end.
\<close>

theorem push_stack_bounded:
  assumes "stackSize st = Finite (of_nat n)" and "0 < n" and "length (routeStack st) \<le> n"
  shows "(\<exists>st'. push_sequence st rs = Some st' \<and> length (routeStack st') \<le> n
            \<and> stackSize st' = stackSize st)
    \<and> (currentTransition st = None \<and> arrays st ! ConfirmTransitions st = []
         \<and> route \<noteq> get st \<longrightarrow>
        push st route =
          Some (fire (st\<lparr>routeStack :=
                  drop (length (routeStack st @ [get st]) - n)
                       (routeStack st @ [get st])\<rparr>) route, Resolved ()))"
proof (intro conjI impI)
  from assms show "\<exists>st'. push_sequence st rs = Some st' \<and> length (routeStack st') \<le> n
            \<and> stackSize st' = stackSize st"
    by (rule push_sequence_bound)
next
  assume "currentTransition st = None \<and> arrays st ! ConfirmTransitions st = []
    \<and> route \<noteq> get st"
  then show "push st route =
          Some (fire (st\<lparr>routeStack :=
                  drop (length (routeStack st @ [get st]) - n)
                       (routeStack st @ [get st])\<rparr>) route, Resolved ())"
    by (simp add: push_idle [OF assms(1,2)])
qed

theorem push_stack_bounded_witness:
  "stackSize (Router_new (Some (0::nat)) (Finite 2)) = Finite (of_nat 2) \<and> (0::nat) < 2
   \<and> length (routeStack (Router_new (Some (0::nat)) (Finite 2))) \<le> 2
   \<and> (\<exists>st'. push_sequence (Router_new (Some (0::nat)) (Finite 2)) [Some 1, Some 2, Some 3]
               = Some st'
        \<and> length (routeStack st') \<le> 2)
   \<and> push \<lparr>effect_value = Some (2::nat), effect_fired = [Some 1, Some 2],
            routeStack = [Some 0, Some 1], stackSize = Finite 2, arrays = [Nil],
            ConfirmTransitions = 0, currentTransition = None\<rparr> (Some 3)
       = Some (\<lparr>effect_value = Some 3, effect_fired = [Some 1, Some 2, Some 3],
                 routeStack = [Some 1, Some 2], stackSize = Finite 2, arrays = [Nil],
                 ConfirmTransitions = 0, currentTransition = None\<rparr>, Resolved ())"
proof -
  let ?r = "Router_new (Some (0::nat)) (Finite 2)"
  let ?full = "\<lparr>effect_value = Some (2::nat), effect_fired = [Some 1, Some 2],
            routeStack = [Some 0, Some 1], stackSize = Finite 2, arrays = [Nil],
            ConfirmTransitions = 0, currentTransition = None\<rparr>"
  have s: "stackSize ?r = Finite (of_nat 2)" and p: "(0::nat) < 2"
    and h: "length (routeStack ?r) \<le> 2"
    by (simp_all add: Router_new_def)
  have sf: "stackSize ?full = Finite (of_nat 2)" and hf: "length (routeStack ?full) \<le> 2"
    by simp_all
  from push_stack_bounded [OF s p h, of "[Some 1, Some 2, Some 3]" "Some 1"]
  have a: "\<exists>st'. push_sequence ?r [Some 1, Some 2, Some 3] = Some st'
        \<and> length (routeStack st') \<le> 2"
    by blast
  from push_stack_bounded [OF sf p hf, of "[]" "Some 3"]
  have b: "push ?full (Some 3)
       = Some (\<lparr>effect_value = Some 3, effect_fired = [Some 1, Some 2, Some 3],
                 routeStack = [Some 1, Some 2], stackSize = Finite 2, arrays = [Nil],
                 ConfirmTransitions = 0, currentTransition = None\<rparr>, Resolved ())"
    by (simp add: get_def fire_def)
  from s p h a b show ?thesis by blast
qed

section \<open>Claims about late votes, set and aliasing\<close>


text \<open>
  Claim C7, as stated: with \<open>stackSize = 2\<close> and no handler, \<open>push(A)\<close>, \<open>push(B)\<close>,
  \<open>push(C)\<close> leave the stack \<open>[B]\<close> and the current route \<open>C\<close>. With routes 1, 2, 3 on
  a new router the stack is \<open>[1, 2]\<close>: each \<open>push\<close> stores the route shown before it, the
  first one the initial \<open>undefined\<close>, and the third drops that oldest entry only.
\<close>

theorem stack_after_pushes_is_not_B:
  "map_option routeStack (push_sequence (Router_new None (Finite 2)) [Some (1::nat), Some 2, Some 3])
     = Some [Some 1, Some 2]
   \<and> map_option routeStack (push_sequence (Router_new None (Finite 2)) [Some (1::nat), Some 2, Some 3])
     \<noteq> Some [Some 2]
   \<and> map_option get (push_sequence (Router_new None (Finite 2)) [Some (1::nat), Some 2, Some 3])
     = Some (Some 3)"
  by code_simp

text \<open>
  Claim C7, amended: on a router with \<open>stackSize = 2\<close>, no registered handler and distinct
  routes \<open>A\<close>, \<open>B\<close>, \<open>C\<close>, the sequence \<open>push(A)\<close>, \<open>push(B)\<close>, \<open>push(C)\<close> leaves the stack
  equal to \<open>[A, B]\<close> and the current route equal to \<open>C\<close>, whatever the initial route was.
\<close>

theorem push_A_B_C_bound_two:
  assumes "A \<noteq> B" and "B \<noteq> C" and "A \<noteq> C"
  shows "\<exists>st'. push_sequence (Router_new initial (Finite 2)) [A, B, C] = Some st'
     \<and> routeStack st' = [A, B] \<and> get st' = C"
proof (cases "initial = A")
  case True
  then have 1: "push (Router_new initial (Finite 2)) A = Some (Router_new initial (Finite 2), Resolved ())"
    by (simp add: push_def get_def Router_new_def)
  let ?s2 = "fire ((Router_new initial (Finite 2))\<lparr>routeStack := [A]\<rparr>) B"
  have 2: "push (Router_new initial (Finite 2)) B = Some (?s2, Resolved ())"
    using True assms by (subst push_idle [where n = 2]) (auto simp: Router_new_def get_def)
  let ?s3 = "fire (?s2\<lparr>routeStack := [A, B]\<rparr>) C"
  have 3: "push ?s2 C = Some (?s3, Resolved ())"
    using assms by (subst push_idle [where n = 2]) (auto simp: Router_new_def get_def fire_def)
  show ?thesis using 1 2 3 by (simp add: fire_def get_def)
next
  case False
  let ?s1 = "fire ((Router_new initial (Finite 2))\<lparr>routeStack := [initial]\<rparr>) A"
  have 1: "push (Router_new initial (Finite 2)) A = Some (?s1, Resolved ())"
    using False by (subst push_idle [where n = 2]) (auto simp: Router_new_def get_def)
  let ?s2 = "fire (?s1\<lparr>routeStack := [initial, A]\<rparr>) B"
  have 2: "push ?s1 B = Some (?s2, Resolved ())"
    using assms by (subst push_idle [where n = 2]) (auto simp: Router_new_def get_def fire_def)
  let ?s3 = "fire (?s2\<lparr>routeStack := [A, B]\<rparr>) C"
  have 3: "push ?s2 C = Some (?s3, Resolved ())"
    using assms by (subst push_idle [where n = 2]) (auto simp: Router_new_def get_def fire_def)
  show ?thesis using 1 2 3 by (simp add: fire_def get_def)
qed

theorem push_A_B_C_bound_two_witness:
  "Some (1::nat) \<noteq> Some 2 \<and> Some (2::nat) \<noteq> Some 3 \<and> Some (1::nat) \<noteq> Some 3
   \<and> (\<exists>st'. push_sequence (Router_new None (Finite 2)) [Some (1::nat), Some 2, Some 3] = Some st'
        \<and> routeStack st' = [Some 1, Some 2] \<and> get st' = Some 3)"
proof -
  have a: "Some (1::nat) \<noteq> Some 2" and b: "Some (2::nat) \<noteq> Some 3"
    and c: "Some (1::nat) \<noteq> Some 3" by simp_all
  from push_A_B_C_bound_two [OF a b c, of None] a b c show ?thesis by blast
qed

text \<open>
  Claim C8: \<open>set(route)\<close> with the route that is current only clears the stack and fires
  nothing; with another route the stack is cleared before the vote is over, and stays
  cleared when the transition is cancelled afterwards.

  For the current route the call succeeds with the router changed in \<open>routeStack\<close> only.
  For every route the call returns, the stack of the router it returns is empty whatever
  the promise is (resolved, rejected or pending), and the stack is still empty after a
  \<open>cancel\<close>, with \<open>this\<close> undefined as the code calls it and also with \<open>this\<close> bound to
  the router.
\<close>

theorem set_clears_history_up_front:
  "(route = get st \<longrightarrow> set_route st route = Some (st\<lparr>routeStack := []\<rparr>, Resolved ()))
   \<and> (\<exists>st' out. set_route st route = Some (st', out) \<and> routeStack st' = []
        \<and> (\<forall>this err st'' c.
              complete this update_op route None err st' = Some (st'', c) \<longrightarrow>
              routeStack st'' = []))"
proof -
  have cancel_stack: "routeStack st'' = []"
    if "routeStack st' = []" and "complete this update_op route None err st' = Some (st'', c)"
    for st' st'' :: "'a router" and this err c
    using that by (auto simp: complete_def split: this_binding.splits option.splits)
  have eq: "route = get st \<Longrightarrow> set_route st route = Some (st\<lparr>routeStack := []\<rparr>, Resolved ())"
    by (simp add: set_route_def get_def)
  have "\<exists>st' out. set_route st route = Some (st', out) \<and> routeStack st' = []"
  proof (cases "route = get st")
    case True
    with eq show ?thesis by simp
  next
    case False
    let ?s = "st\<lparr>routeStack := []\<rparr>"
    have sr: "set_route st route = updateRoute ?s route update_op"
      using False by (auto simp: set_route_def get_def)
    show ?thesis
    proof (cases "currentTransition st")
      case (Some a)
      then show ?thesis by (simp add: sr updateRoute_in_progress)
    next
      case None
      show ?thesis
      proof (cases "arrays st ! ConfirmTransitions st = []")
        case True
        with None show ?thesis
          by (simp add: sr updateRoute_no_handlers update_op_def update_def fire_def)
      next
        case False
        with None have "currentTransition ?s = None" "arrays ?s ! ConfirmTransitions ?s \<noteq> []"
          by simp_all
        from updateRoute_voting [OF this, of route update_op] show ?thesis
          by (auto simp: sr)
      qed
    qed
  qed
  with eq cancel_stack show ?thesis by blast
qed

theorem set_clears_history_up_front_witness:
  "Some 1 = get voting_router
   \<and> set_route voting_router (Some 1) = Some (voting_router\<lparr>routeStack := []\<rparr>, Resolved ())
   \<and> routeStack voting_router = [Some 0]
   \<and> (\<exists>st'. set_route (voting_router\<lparr>currentTransition := None\<rparr>) (Some 5) = Some (st', Pending)
        \<and> routeStack st' = []
        \<and> (\<exists>st''. complete This_router update_op (Some 5) None (Some (Error ''blocked'')) st'
                     = Some (st'', Returned (Some (Reject (Error ''blocked''))))
                   \<and> routeStack st'' = []))"
proof -
  let ?idle = "voting_router\<lparr>currentTransition := None\<rparr>"
  let ?v = "voting_router\<lparr>routeStack := [], currentTransition := Some 1\<rparr>"
  have g: "Some 1 = get voting_router" and s: "routeStack voting_router = [Some 0]"
    by (simp_all add: get_def voting_router_def)
  have e: "set_route ?idle (Some 5) = Some (?v, Pending)"
    by code_simp
  have c: "complete This_router update_op (Some 5) None (Some (Error ''blocked'')) ?v
             = Some (?v\<lparr>currentTransition := None\<rparr>, Returned (Some (Reject (Error ''blocked''))))"
    by (simp add: complete_def)
  from set_clears_history_up_front [of "Some 5" ?idle] e
  have "routeStack ?v = [] \<and> (\<forall>this err st'' c.
          complete this update_op (Some 5) None err ?v = Some (st'', c) \<longrightarrow> routeStack st'' = [])"
    by auto
  with c have "routeStack ?v = [] \<and> routeStack (?v\<lparr>currentTransition := None\<rparr>) = []"
    by blast
  with g s e c set_clears_history_up_front [of "Some 1" voting_router] show ?thesis
    by auto
qed

text \<open>
  Claim C9: each \<open>confirm\<close> removes its handler from the registered handlers, so after all
  have confirmed no handler is registered and the next request commits without a vote.

  The code does not do this. One handler is registered and confirms as soon as it is
  invoked; \<open>push(1)\<close> is requested. \<open>confirm\<close> throws before line 140 is reached: the
  handler is still registered, \<open>currentTransition\<close> is the registered array, nothing was
  fired, and the next request, \<open>push(2)\<close>, fails with the transition-in-progress error.
  A later \<open>confirm\<close> on \<open>voting_router\<close> leaves its handler registered as well.
\<close>

theorem confirm_keeps_registration_list:
  "(case push (registerConfirm (Router_new (Some 0) (Finite 32)) (Handler 1 [Confirm])) (Some (1::nat)) of
      None \<Rightarrow> False
    | Some (st, out) \<Rightarrow>
        out = Rejected this_undefined_error
      \<and> arrays st ! ConfirmTransitions st = [Handler 1 [Confirm]]
      \<and> currentTransition st = Some (ConfirmTransitions st)
      \<and> effect_fired st = []
      \<and> push st (Some 2) = Some (st, Rejected in_progress_error))
   \<and> (case confirm push_op (Some 2) waiting_handler voting_router of
        None \<Rightarrow> False
      | Some (st, c) \<Rightarrow> arrays st ! ConfirmTransitions st = [waiting_handler]
          \<and> currentTransition st = Some (ConfirmTransitions st))"
  by code_simp

text \<open>
  Claim C10: a call that fails because a transition is pending has already changed the
  stack when it is \<open>pop\<close> or \<open>set\<close>, and has not when it is \<open>push\<close>.

  While a transition is pending, \<open>pop()\<close> fails with the transition-in-progress error and
  the stack has lost its last entry, which the caller does not get; \<open>set(route)\<close> for a
  route other than the current one fails with the same error and the stack is empty;
  \<open>push(route)\<close> for such a route fails with it and the stack is what it was.
\<close>

theorem in_progress_failure_not_atomic:
  assumes "currentTransition st \<noteq> None"
  shows "(\<exists>st'. pop st = Some (st', Rejected in_progress_error)
            \<and> routeStack st' = butlast (routeStack st))
    \<and> (route \<noteq> get st \<longrightarrow>
         (\<exists>st'. set_route st route = Some (st', Rejected in_progress_error) \<and> routeStack st' = [])
       \<and> (\<exists>st'. push st route = Some (st', Rejected in_progress_error)
             \<and> routeStack st' = routeStack st))"
  using assms
  by (simp add: pop_def push_def set_route_def array_pop_eq updateRoute_in_progress get_def)

theorem in_progress_failure_not_atomic_witness:
  "currentTransition voting_router \<noteq> None \<and> Some 2 \<noteq> get voting_router
   \<and> routeStack voting_router = [Some 0]
   \<and> (\<exists>st'. pop voting_router = Some (st', Rejected in_progress_error) \<and> routeStack st' = [])
   \<and> (\<exists>st'. set_route voting_router (Some 2) = Some (st', Rejected in_progress_error)
         \<and> routeStack st' = [])
   \<and> (\<exists>st'. push voting_router (Some 2) = Some (st', Rejected in_progress_error)
         \<and> routeStack st' = [Some 0])"
proof -
  have h: "currentTransition voting_router \<noteq> None" by (simp add: voting_router_def)
  have g: "Some 2 \<noteq> get voting_router" by (simp add: voting_router_def get_def)
  have s: "routeStack voting_router = [Some 0]" by (simp add: voting_router_def)
  from in_progress_failure_not_atomic [OF h, of "Some 2"] g s h show ?thesis by simp
qed

end
